theory Spec2Isabelle
  imports Main
begin

section \<open>Library functions the logger calls\<close>

text \<open>
  The logger is Go code (package \<open>logger\<close>). The few functions of Go's standard
  library it relies on are modelled here, on byte strings, from their documentation.
  Letters outside ASCII are left alone by the case functions of this model.
\<close>

definition toUpperChar :: "char \<Rightarrow> char" where
  "toUpperChar c =
     (let n = (of_char c :: nat) in if 97 \<le> n \<and> n \<le> 122 then char_of (n - 32) else c)"

text \<open>\<open>strings.ToUpper\<close>.\<close>

definition ToUpper :: "string \<Rightarrow> string" where
  "ToUpper s = map toUpperChar s"

text \<open>\<open>strings.EqualFold\<close>: equality up to the case of letters.\<close>

definition EqualFold :: "string \<Rightarrow> string \<Rightarrow> bool" where
  "EqualFold s t = (ToUpper s = ToUpper t)"

text \<open>
  \<open>strings.Split(s, sep)\<close> for a separator of one byte. A string without the
  separator, the empty string included, gives a slice of length one holding the string.
\<close>

fun Split :: "string \<Rightarrow> char \<Rightarrow> string list" where
  "Split [] sep = [[]]"
| "Split (c # cs) sep =
     (if c = sep then [] # Split cs sep
      else (case Split cs sep of
              [] \<Rightarrow> [[c]]
            | d # ds \<Rightarrow> (c # d) # ds))"

text \<open>The decimal text of an integer, as the verb \<open>%d\<close> prints it.\<close>

fun digits :: "nat \<Rightarrow> string" where
  "digits n =
     (if n < 10 then [char_of (48 + n)]
      else digits (n div 10) @ [char_of (48 + n mod 10)])"

declare digits.simps [simp del]

definition itoa :: "int \<Rightarrow> string" where
  "itoa i = (if i < 0 then CHR ''-'' # digits (nat (- i)) else digits (nat i))"

text \<open>
  \<open>fmt.Sprintf\<close> on a caller's format string. An operand is given by the text
  \<open>fmt\<close> prints for it; a verb is one letter after the percent sign and takes the next
  operand, \<open>%%\<close> is a percent sign. Flags and widths are outside this model.
\<close>

fun Sprintf :: "string \<Rightarrow> string list \<Rightarrow> string" where
  "Sprintf [] [] = []"
| "Sprintf [] (a # as) = ''%!(EXTRA '' @ concat (a # map (\<lambda>x. '', '' @ x) as) @ '')''"
| "Sprintf (c # cs) as =
     (if c \<noteq> CHR ''%'' then c # Sprintf cs as
      else (case cs of
              [] \<Rightarrow> ''%!(NOVERB)'' @ Sprintf [] as
            | v # rest \<Rightarrow>
                if v = CHR ''%'' then CHR ''%'' # Sprintf rest as
                else (case as of
                        [] \<Rightarrow> ''%!'' @ [v] @ ''(MISSING)'' @ Sprintf rest []
                      | a # as' \<Rightarrow> a @ Sprintf rest as')))"

section \<open>Severity levels\<close>

definition NONE :: int where "NONE = 0"
definition STATUS :: int where "STATUS = 1"
definition FATAL :: int where "FATAL = 2"
definition ERROR :: int where "ERROR = 3"
definition WARNING :: int where "WARNING = 4"
definition INFO :: int where "INFO = 5"
definition DEBUG :: int where "DEBUG = 6"
definition TRACE :: int where "TRACE = 7"

lemmas level_defs =
  NONE_def STATUS_def FATAL_def ERROR_def WARNING_def INFO_def DEBUG_def TRACE_def

text \<open>The map \<open>logLevels\<close>, as the list of its entries.\<close>

definition logLevels :: "(string \<times> int) list" where
  "logLevels =
     [(''NONE'', NONE), (''STATUS'', STATUS), (''FATAL'', FATAL), (''ERROR'', ERROR),
      (''WARNING'', WARNING), (''INFO'', INFO), (''DEBUG'', DEBUG), (''TRACE'', TRACE),
      (''XTRACE'', TRACE)]"

definition logLevelPrefix :: "string list" where
  "logLevelPrefix =
     [''NONE: '', ''STATUS: '', ''FATAL: '', ''ERROR: '', ''WARNING: '', ''INFO: '',
      ''DEBUG: '', ''TRACE: '']"

definition logLevel2glog :: "int list" where
  "logLevel2glog = [0, 0, 0, 0, 0, 3, 5, 6]"

text \<open>
  \<open>logLevel\<close> returns the ordinal of a level name. The second component is what it
  prints on the console with \<open>fmt.Printf\<close>.
\<close>

definition logLevel :: "string \<Rightarrow> int \<times> string list" where
  "logLevel stringLevel =
     (case map_of logLevels (ToUpper stringLevel) of
        Some level \<Rightarrow> (level, [])
      | None \<Rightarrow>
          (INFO, [''Invalid log level '' @ stringLevel @ '' specified. Using INFO instead'' @ [CHR 0x0A]]))"

section \<open>The engine and its surroundings\<close>

text \<open>
  What a call leaves behind: it returns, it blocks for ever on the guard channel, or the
  Go runtime panics. Each carries the state reached at that point.
\<close>

datatype 'a outcome = Returned (state: 'a) | Blocked (state: 'a) | Panicked (state: 'a)

text \<open>
  An \<open>*os.File\<close> is an index into \<open>handles\<close>, the file objects allocated so far, so
  that two pointers to one object (\<open>savFile\<close> and \<open>log.CurrentFile\<close>, or the file
  inside the multiplexed writer) see the same object.
\<close>

record File =
  Name :: string
  closed :: bool

datatype sink = FileSink nat | StdoutSink | SyslogSink

text \<open>The \<open>*golog.Logger\<close>: its prefix and the writers behind its \<open>io.MultiWriter\<close>.\<close>

record golog_Logger =
  lprefix :: string
  out :: "sink list"

datatype glog_event = InfoDepth string | WarningDepth string | ErrorDepth string | Flush

text \<open>The calls made to the operating system, in the order \<open>ops\<close> records them.\<close>

datatype fsop =
    Stat string
  | FStat nat
  | MkdirAll string
  | OpenFile string
  | Open string
  | Create string
  | Close nat
  | Rename string string
  | Remove string
  | GzipCopy nat nat
  | GzipClose nat
  | SyslogNew string

record world =
  files :: "string list"
  dirs :: "string list"
  handles :: "File list"
  ops :: "fsop list"
  console :: "string list"
  primary :: "(sink list \<times> string) list"
  bridge :: "glog_event list"
  verbosity :: int

text \<open>
  What the model does not decide itself is given by \<open>os\<close>: the error text with which
  the operating system refuses a call (\<open>None\<close>: it does not), and the size it reports
  for a file.
\<close>

record os =
  refuses :: "fsop \<Rightarrow> string option"
  size_of :: "string \<Rightarrow> int"

record Parameters =
  RootPath :: string
  FileName :: string
  MaxFileSize :: int
  MaxCompressedFilesNumber :: int
  Destinations :: string
  Prefix :: string
  Level :: string
  MaintenanceInterval :: int

text \<open>
  The struct \<open>Logger\<close>. \<open>lockChannel\<close> is the buffer of the channel (\<open>None\<close>: the nil
  channel), \<open>ticker\<close> tells whether a running ticker is attached.
\<close>

record Logger =
  Tracing :: bool
  Logger :: "golog_Logger option"
  Level :: int
  MaxFileSize :: int
  MaxCompressedFilesNumber :: int
  CurrentFile :: "nat option"
  useLogger :: bool
  glog :: bool
  prefix :: string
  Stdout :: bool
  Syslog :: "sink option"
  ticker :: "bool option"
  lockChannel :: "int list option"

text \<open>Go's \<open>int\<close> and \<open>int64\<close> are 64 bits wide and wrap around.\<close>

definition wrap64 :: "int \<Rightarrow> int" where
  "wrap64 x = (x + 2 ^ 63) mod 2 ^ 64 - 2 ^ 63"

definition newline :: string where
  "newline = [CHR 0x0A]"

subsection \<open>The guard\<close>

text \<open>
  \<open>lock\<close> receives from the channel and \<open>unLock\<close> sends to it; the channel has
  capacity one. \<open>None\<close> is the goroutine blocked: nobody else can help it, since
  only a holder of the token sends.
\<close>

definition lock :: "Logger \<Rightarrow> Logger option" where
  "lock log =
     (case lockChannel log of
        None \<Rightarrow> None
      | Some [] \<Rightarrow> None
      | Some (t # ts) \<Rightarrow> Some (log\<lparr>lockChannel := Some ts\<rparr>))"

definition unLock :: "Logger \<Rightarrow> Logger option" where
  "unLock log =
     (case lockChannel log of
        None \<Rightarrow> None
      | Some ts \<Rightarrow> if length ts < 1 then Some (log\<lparr>lockChannel := Some (ts @ [1])\<rparr>) else None)"

subsection \<open>Leveled logging\<close>

text \<open>\<open>glog.V\<close>: whether the verbosity of the external facility reaches a level.\<close>

definition glog_V :: "world \<Rightarrow> int \<Rightarrow> bool" where
  "glog_V w l = (l \<le> verbosity w)"

definition in_table :: "int \<Rightarrow> bool" where
  "in_table level = (0 \<le> level \<and> level < 8)"

text \<open>\<open>log.Logger.Printf\<close>: the text goes to every writer of the logger.\<close>

definition Logger_Printf :: "golog_Logger \<Rightarrow> string \<Rightarrow> string list \<Rightarrow> world \<Rightarrow> world" where
  "Logger_Printf l format a w = w\<lparr>primary := primary w @ [(out l, Sprintf format a)]\<rparr>"

text \<open>The second half of \<open>printf\<close>: the line for glog.\<close>

definition printf_glog :: "Logger \<Rightarrow> world \<Rightarrow> int \<Rightarrow> string \<Rightarrow> string list \<Rightarrow> (Logger \<times> world) outcome" where
  "printf_glog log w level format a =
     (if \<not> glog log then Returned (log, w)
      else if \<not> in_table level then Panicked (log, w)
      else if \<not> glog_V w (logLevel2glog ! nat level) then Returned (log, w)
      else
        let line = prefix log @ logLevelPrefix ! nat level @ Sprintf format a in
        if level = FATAL \<or> level = ERROR
          then Returned (log, w\<lparr>bridge := bridge w @ [ErrorDepth line, Flush]\<rparr>)
        else if level = WARNING
          then Returned (log, w\<lparr>bridge := bridge w @ [WarningDepth line]\<rparr>)
        else Returned (log, w\<lparr>bridge := bridge w @ [InfoDepth line]\<rparr>))"

definition printf :: "Logger \<Rightarrow> world \<Rightarrow> int \<Rightarrow> string \<Rightarrow> string list \<Rightarrow> (Logger \<times> world) outcome" where
  "printf log w level format a =
     (if useLogger log \<and> Level log \<ge> level then
        (case lock log of
           None \<Rightarrow> Blocked (log, w)
         | Some log1 \<Rightarrow>
             if \<not> in_table level then Panicked (log1, w)
             else (case Logger log1 of
                     None \<Rightarrow> Panicked (log1, w)
                   | Some l \<Rightarrow>
                       let w1 = Logger_Printf l (logLevelPrefix ! nat level @ format) a w in
                       (case unLock log1 of
                          None \<Rightarrow> Blocked (log1, w1)
                        | Some log2 \<Rightarrow> printf_glog log2 w1 level format a)))
      else printf_glog log w level format a)"

definition printfAlways :: "Logger \<Rightarrow> world \<Rightarrow> string \<Rightarrow> string list \<Rightarrow> (Logger \<times> world) outcome" where
  "printfAlways log w format a =
     (let glog_part = (\<lambda>log' w'.
        if glog log' then
          Returned (log', w'\<lparr>bridge := bridge w' @ [InfoDepth (prefix log' @ Sprintf format a)]\<rparr>)
        else Returned (log', w'))
      in
      if useLogger log then
        (case lock log of
           None \<Rightarrow> Blocked (log, w)
         | Some log1 \<Rightarrow>
             (case Logger log1 of
                None \<Rightarrow> Panicked (log1, w)
              | Some l \<Rightarrow>
                  let w1 = Logger_Printf l format a w in
                  (case unLock log1 of
                     None \<Rightarrow> Blocked (log1, w1)
                   | Some log2 \<Rightarrow> glog_part log2 w1)))
      else glog_part log w)"

definition Status :: "Logger \<Rightarrow> world \<Rightarrow> string \<Rightarrow> string list \<Rightarrow> (Logger \<times> world) outcome" where
  "Status log w format a = printf log w STATUS format a"

definition Fatal :: "Logger \<Rightarrow> world \<Rightarrow> string \<Rightarrow> string list \<Rightarrow> (Logger \<times> world) outcome" where
  "Fatal log w format a = printf log w FATAL format a"

definition Error :: "Logger \<Rightarrow> world \<Rightarrow> string \<Rightarrow> string list \<Rightarrow> (Logger \<times> world) outcome" where
  "Error log w format a = printf log w ERROR format a"

definition Warning :: "Logger \<Rightarrow> world \<Rightarrow> string \<Rightarrow> string list \<Rightarrow> (Logger \<times> world) outcome" where
  "Warning log w format a = printf log w WARNING format a"

definition Info :: "Logger \<Rightarrow> world \<Rightarrow> string \<Rightarrow> string list \<Rightarrow> (Logger \<times> world) outcome" where
  "Info log w format a = printf log w INFO format a"

definition Debug :: "Logger \<Rightarrow> world \<Rightarrow> string \<Rightarrow> string list \<Rightarrow> (Logger \<times> world) outcome" where
  "Debug log w format a = printf log w DEBUG format a"

definition Trace :: "Logger \<Rightarrow> world \<Rightarrow> string \<Rightarrow> string list \<Rightarrow> (Logger \<times> world) outcome" where
  "Trace log w format a = printf log w TRACE format a"

text \<open>
  \<open>IsLogging\<close>. The right operand of \<open>||\<close> is evaluated only when the left one is
  false, and indexing \<open>logLevel2glog\<close> out of range panics (\<open>None\<close>).
\<close>

definition IsLogging :: "Logger \<Rightarrow> world \<Rightarrow> int \<Rightarrow> bool option" where
  "IsLogging log w level =
     (if Level log \<ge> level then Some True
      else if \<not> glog log then Some False
      else if \<not> in_table level then None
      else Some (glog_V w (logLevel2glog ! nat level)))"

section \<open>Files\<close>

text \<open>
  The names the rotation works on: \<open>fmt.Sprintf("%s.%d.gz", name, i)\<close> for the
  archives, and the name with \<open>.1\<close> appended for the file just retired.
\<close>

definition zipName :: "string \<Rightarrow> int \<Rightarrow> string" where
  "zipName name i = name @ ''.'' @ itoa i @ ''.gz''"

definition ENOENT :: string where
  "ENOENT = ''no such file or directory''"

definition ErrClosed :: string where
  "ErrClosed = ''file already closed''"

definition say :: "string \<Rightarrow> world \<Rightarrow> world" where
  "say line w = w\<lparr>console := console w @ [line]\<rparr>"

definition called :: "fsop \<Rightarrow> world \<Rightarrow> world" where
  "called op w = w\<lparr>ops := ops w @ [op]\<rparr>"

text \<open>
  The operating system, as far as the logger uses it. Every call is recorded. A call
  fails when \<open>os\<close> refuses it, or when the files at hand do not allow it.
\<close>

definition os_Remove :: "os \<Rightarrow> string \<Rightarrow> world \<Rightarrow> string option \<times> world" where
  "os_Remove env name w =
     (let w1 = called (Remove name) w in
      case refuses env (Remove name) of
        Some e \<Rightarrow> (Some e, w1)
      | None \<Rightarrow>
          if name \<in> set (files w) then (None, w1\<lparr>files := removeAll name (files w)\<rparr>)
          else (Some ENOENT, w1))"

text \<open>A successful rename replaces a file that has the new name already.\<close>

definition os_Rename :: "os \<Rightarrow> string \<Rightarrow> string \<Rightarrow> world \<Rightarrow> string option \<times> world" where
  "os_Rename env oldpath newpath w =
     (let w1 = called (Rename oldpath newpath) w in
      case refuses env (Rename oldpath newpath) of
        Some e \<Rightarrow> (Some e, w1)
      | None \<Rightarrow>
          if oldpath \<in> set (files w)
            then (None, w1\<lparr>files := List.insert newpath (removeAll oldpath (files w))\<rparr>)
          else (Some ENOENT, w1))"

text \<open>\<open>os.OpenFile\<close> with \<open>O_WRONLY|O_CREATE|O_APPEND\<close>.\<close>

definition os_OpenFile :: "os \<Rightarrow> string \<Rightarrow> world \<Rightarrow> (string + nat) \<times> world" where
  "os_OpenFile env name w =
     (let w1 = called (OpenFile name) w in
      case refuses env (OpenFile name) of
        Some e \<Rightarrow> (Inl e, w1)
      | None \<Rightarrow>
          (Inr (length (handles w)),
           w1\<lparr>files := List.insert name (files w),
              handles := handles w @ [\<lparr>Name = name, closed = False\<rparr>]\<rparr>))"

text \<open>\<open>os.Open\<close>: for reading, the file must exist.\<close>

definition os_Open :: "os \<Rightarrow> string \<Rightarrow> world \<Rightarrow> (string + nat) \<times> world" where
  "os_Open env name w =
     (let w1 = called (Open name) w in
      case refuses env (Open name) of
        Some e \<Rightarrow> (Inl e, w1)
      | None \<Rightarrow>
          if name \<in> set (files w)
            then (Inr (length (handles w)), w1\<lparr>handles := handles w @ [\<lparr>Name = name, closed = False\<rparr>]\<rparr>)
          else (Inl ENOENT, w1))"

definition os_Create :: "os \<Rightarrow> string \<Rightarrow> world \<Rightarrow> (string + nat) \<times> world" where
  "os_Create env name w =
     (let w1 = called (Create name) w in
      case refuses env (Create name) of
        Some e \<Rightarrow> (Inl e, w1)
      | None \<Rightarrow>
          (Inr (length (handles w)),
           w1\<lparr>files := List.insert name (files w),
              handles := handles w @ [\<lparr>Name = name, closed = False\<rparr>]\<rparr>))"

text \<open>
  \<open>(*os.File).Close\<close>: the object is closed afterwards whatever the call returns; closing
  it a second time is an error.
\<close>

definition File_Close :: "os \<Rightarrow> nat \<Rightarrow> world \<Rightarrow> string option \<times> world" where
  "File_Close env f w =
     (let w1 = called (Close f) w in
      if f < length (handles w) then
        (let w2 = w1\<lparr>handles := (handles w)[f := (handles w ! f)\<lparr>closed := True\<rparr>]\<rparr> in
         if closed (handles w ! f) then (Some ErrClosed, w2)
         else (refuses env (Close f), w2))
      else (Some ''invalid argument'', w1))"

text \<open>\<open>(*os.File).Stat\<close>, of which the logger reads the size only.\<close>

definition File_Stat :: "os \<Rightarrow> nat \<Rightarrow> world \<Rightarrow> (string + int) \<times> world" where
  "File_Stat env f w =
     (let w1 = called (FStat f) w in
      if f < length (handles w) then
        (if closed (handles w ! f) then (Inl ErrClosed, w1)
         else (case refuses env (FStat f) of
                 Some e \<Rightarrow> (Inl e, w1)
               | None \<Rightarrow> (Inr (size_of env (Name (handles w ! f))), w1)))
      else (Inl ''invalid argument'', w1))"

definition File_Name :: "world \<Rightarrow> nat \<Rightarrow> string" where
  "File_Name w f = Name (handles w ! f)"

text \<open>\<open>io.Copy\<close> into the gzip writer, and closing the gzip writer.\<close>

definition gzip_Copy :: "os \<Rightarrow> nat \<Rightarrow> nat \<Rightarrow> world \<Rightarrow> string option \<times> world" where
  "gzip_Copy env dst src w = (refuses env (GzipCopy dst src), called (GzipCopy dst src) w)"

definition gzip_Close :: "os \<Rightarrow> nat \<Rightarrow> world \<Rightarrow> string option \<times> world" where
  "gzip_Close env dst w = (refuses env (GzipClose dst), called (GzipClose dst) w)"

section \<open>Rotation\<close>

subsection \<open>Archive names are distinct\<close>

lemma digits_nonempty: "digits n \<noteq> []"
  by (subst digits.simps) simp

lemma digit_char_inj: "a < 10 \<Longrightarrow> b < 10 \<Longrightarrow> (char_of (48 + a) :: char) = char_of (48 + b) \<Longrightarrow> a = (b::nat)"
proof -
  assume a: "a < 10" and b: "b < 10" and e: "(char_of (48 + a) :: char) = char_of (48 + b)"
  from e have "(of_char (char_of (48 + a) :: char) :: nat) = of_char (char_of (48 + b) :: char)" by simp
  then have "(48 + a) mod 256 = (48 + b) mod 256" by (simp only: of_char_of)
  with a b show ?thesis by simp
qed

lemma digits_inj: "digits a = digits b \<Longrightarrow> a = b"
proof (induction a arbitrary: b rule: digits.induct)
  case (1 n)
  show ?case
  proof (cases "n < 10")
    case True
    note n = this
    show ?thesis
    proof (cases "b < 10")
      case True
      with n "1.prems" show ?thesis
        by (simp add: digits.simps [of n] digits.simps [of b] digit_char_inj)
    next
      case False
      with n "1.prems" digits_nonempty [of "b div 10"] show ?thesis
        by (simp add: digits.simps [of n] digits.simps [of b])
    qed
  next
    case False
    note n = this
    show ?thesis
    proof (cases "b < 10")
      case True
      with n "1.prems" digits_nonempty [of "n div 10"] show ?thesis
        by (simp add: digits.simps [of n] digits.simps [of b])
    next
      case False
      with n "1.prems" have e: "digits (n div 10) = digits (b div 10)"
        and d: "(char_of (48 + n mod 10) :: char) = char_of (48 + b mod 10)"
        by (simp_all add: digits.simps [of n] digits.simps [of b])
      from "1.IH" [OF n e] have "n div 10 = b div 10" .
      moreover from d have "n mod 10 = b mod 10" by (intro digit_char_inj) simp_all
      ultimately show ?thesis by (metis div_mult_mod_eq)
    qed
  qed
qed

lemma digits_no_minus: "CHR ''-'' \<notin> set (digits n)"
proof (induction n rule: digits.induct)
  case (1 n)
  have c: "\<And>d::nat. d < 10 \<Longrightarrow> CHR ''-'' \<noteq> (char_of (48 + d) :: char)"
  proof
    fix d :: nat assume d: "d < 10" and e: "CHR ''-'' = (char_of (48 + d) :: char)"
    from e have "(of_char (CHR ''-'') :: nat) = of_char (char_of (48 + d) :: char)" by simp
    then have "(45::nat) = (48 + d) mod 256" by (simp only: of_char_of) simp
    with d show False by simp
  qed
  show ?case
  proof (cases "n < 10")
    case True
    then show ?thesis using c [of n] by (simp add: digits.simps [of n])
  next
    case False
    then show ?thesis using "1.IH" c [of "n mod 10"] by (simp add: digits.simps [of n])
  qed
qed

lemma itoa_inj: "itoa i = itoa j \<Longrightarrow> i = j"
proof -
  assume e: "itoa i = itoa j"
  have hd_digits: "\<And>n. hd (digits n) \<noteq> CHR ''-''"
    using digits_no_minus digits_nonempty by (metis hd_in_set)
  show ?thesis
  proof (cases "i < 0")
    case True
    note i = this
    show ?thesis
    proof (cases "j < 0")
      case True
      with i e have "digits (nat (- i)) = digits (nat (- j))" by (simp add: itoa_def)
      then have "nat (- i) = nat (- j)" by (rule digits_inj)
      with i True show ?thesis by simp
    next
      case False
      with i e have "CHR ''-'' # digits (nat (- i)) = digits (nat j)" by (simp add: itoa_def)
      then have "hd (digits (nat j)) = CHR ''-''" by (metis list.sel(1))
      with hd_digits show ?thesis by simp
    qed
  next
    case False
    note i = this
    show ?thesis
    proof (cases "j < 0")
      case True
      with i e have "digits (nat i) = CHR ''-'' # digits (nat (- j))" by (simp add: itoa_def)
      then have "hd (digits (nat i)) = CHR ''-''" by simp
      with hd_digits show ?thesis by simp
    next
      case False
      with i e have "digits (nat i) = digits (nat j)" by (simp add: itoa_def)
      then have "nat i = nat j" by (rule digits_inj)
      with i False show ?thesis by simp
    qed
  qed
qed

lemma zipName_inj: "zipName name i = zipName name j \<Longrightarrow> i = j"
  by (simp add: zipName_def itoa_inj)

lemma finite_archives: "finite {j. zipName name j \<in> set fs}"
proof -
  have "inj (zipName name)" by (rule injI) (rule zipName_inj)
  then have "finite (zipName name -` set fs)" by (intro finite_vimageI) simp_all
  then show ?thesis by (simp add: vimage_def)
qed

subsection \<open>The maintenance tick\<close>

text \<open>
  The loop of \<open>getOldestZipFileNumber\<close>, from index \<open>i\<close> on. \<open>os.Stat\<close> on an
  archive name is taken to fail only because the file does not exist.
\<close>

function oldestFrom :: "string \<Rightarrow> int \<Rightarrow> world \<Rightarrow> int \<times> world" where
  "oldestFrom name i w =
     (if zipName name i \<in> set (files w)
        then oldestFrom name (i + 1) (called (Stat (zipName name i)) w)
      else (i - 1, called (Stat (zipName name i)) w))"
  by pat_completeness auto
termination
proof (relation "measure (\<lambda>(name, i, w). card {j. i \<le> j \<and> zipName name j \<in> set (files w)})")
  show "wf (measure (\<lambda>(name, i, w). card {j. i \<le> j \<and> zipName name j \<in> set (files w)}))"
    by simp
next
  fix name :: string and i :: int and w :: world
  assume ex: "zipName name i \<in> set (files w)"
  let ?A = "{j. i \<le> j \<and> zipName name j \<in> set (files w)}"
  let ?B = "{j. i + 1 \<le> j \<and> zipName name j \<in> set (files w)}"
  have fin: "finite ?A" using finite_archives [of name "files w"] by simp
  have "i \<in> ?A" "i \<notin> ?B" using ex by simp_all
  moreover have "?B \<subseteq> ?A" by auto
  ultimately have "?B \<subset> ?A" by blast
  with fin have "card ?B < card ?A" by (rule psubset_card_mono)
  then show "((name, i + 1, called (Stat (zipName name i)) w), (name, i, w))
      \<in> measure (\<lambda>(name, i, w). card {j. i \<le> j \<and> zipName name j \<in> set (files w)})"
    by (simp add: called_def)
qed

declare oldestFrom.simps [simp del]

definition getOldestZipFileNumber :: "Logger \<Rightarrow> world \<Rightarrow> int \<times> world" where
  "getOldestZipFileNumber log w =
     (case CurrentFile log of
        None \<Rightarrow> (0, w)
      | Some f \<Rightarrow> oldestFrom (File_Name w f) 1 w)"

text \<open>
  The loop that removes archives, \<open>for i := compressedFiles; i > bound; i--\<close>, where
  \<open>bound\<close> is \<open>log.MaxCompressedFilesNumber-1\<close>.
\<close>

function removeLoop :: "os \<Rightarrow> string \<Rightarrow> int \<Rightarrow> int \<Rightarrow> int \<Rightarrow> world \<Rightarrow> int \<times> world" where
  "removeLoop env name bound i compressedFiles w =
     (if i > bound then
        (case os_Remove env (zipName name i) w of
           (Some e, w1) \<Rightarrow>
             removeLoop env name bound (i - 1) (compressedFiles - 1)
               (say (''Failed to remove compressed log file. Error: '' @ e @ newline) w1)
         | (None, w1) \<Rightarrow> removeLoop env name bound (i - 1) (compressedFiles - 1) w1)
      else (compressedFiles, w))"
  by pat_completeness auto
termination
  by (relation "measure (\<lambda>(env, name, bound, i, compressedFiles, w). nat (i - bound))") auto

declare removeLoop.simps [simp del]

text \<open>
  The loop that shifts the archives, \<open>for i := compressedFiles; i > 0; i--\<close>. Its test
  reads \<open>if os.Rename(fileName, newFileName); err != nil\<close>: the result of the rename is
  dropped, and \<open>err\<close> is the error of the \<open>Stat\<close> above, which is nil here, so nothing
  is printed.
\<close>

function renameLoop :: "os \<Rightarrow> string \<Rightarrow> int \<Rightarrow> world \<Rightarrow> world" where
  "renameLoop env name i w =
     (if i > 0
        then renameLoop env name (i - 1) (snd (os_Rename env (zipName name i) (zipName name (i + 1)) w))
      else w)"
  by pat_completeness auto
termination
  by (relation "measure (\<lambda>(env, name, i, w). nat i)") auto

declare renameLoop.simps [simp del]

text \<open>
  Outside the guard: \<open><name>.1\<close> is compressed into \<open><name>.1.gz\<close> and removed. The
  deferred \<open>zipFile.Close()\<close> runs on every return after the archive was created.
\<close>

definition compress :: "os \<Rightarrow> string \<Rightarrow> Logger \<Rightarrow> world \<Rightarrow> (Logger \<times> world) outcome" where
  "compress env curFileName log w =
     (case os_Open env (curFileName @ ''.1'') w of
        (Inl e, w1) \<Rightarrow>
          Returned (log, say (''Failed to open log file '' @ curFileName @ ''. Error: '' @ e @ newline) w1)
      | (Inr savFile, w1) \<Rightarrow>
          (case os_Create env (curFileName @ ''.1.gz'') w1 of
             (Inl e, w2) \<Rightarrow>
               Returned (log, say (''Failed to open file to compress log. Error: '' @ e @ newline) w2)
           | (Inr zipFile, w2) \<Rightarrow>
               (let deferred = (\<lambda>w'. snd (File_Close env zipFile w')) in
                case gzip_Copy env zipFile savFile w2 of
                  (Some e, w3) \<Rightarrow>
                    Returned (log, deferred (say (''Failed to copy log to gzip. Error: '' @ e @ newline) w3))
                | (None, w3) \<Rightarrow>
                    (case gzip_Close env zipFile w3 of
                       (Some e, w4) \<Rightarrow>
                         Returned (log, deferred
                           (say (''Failed to close file the compressed log. Error: '' @ e @ newline) w4))
                     | (None, w4) \<Rightarrow>
                         (case File_Close env savFile w4 of
                            (Some e, w5) \<Rightarrow>
                              Returned (log, deferred
                                (say (''Failed to close the log file. Error: '' @ e @ newline) w5))
                          | (None, w5) \<Rightarrow>
                              (case os_Remove env (curFileName @ ''.1'') w5 of
                                 (Some e, w6) \<Rightarrow>
                                   Returned (log, deferred
                                     (say (''Failed to remove the log file. Error: '' @ e @ newline) w6))
                               | (None, w6) \<Rightarrow> Returned (log, deferred w6)))))))"

text \<open>
  Between \<open>log.lock()\<close> and \<open>log.unLock()\<close>: the active file is closed, renamed to
  \<open><name>.1\<close> and opened afresh, and the logger gets a new multiplexed writer.
\<close>

definition swap :: "os \<Rightarrow> string \<Rightarrow> nat \<Rightarrow> Logger \<Rightarrow> world \<Rightarrow> (Logger \<times> world) outcome" where
  "swap env curFileName savFile log w =
     (case lock log of
        None \<Rightarrow> Blocked (log, w)
      | Some log1 \<Rightarrow>
          (case File_Close env savFile w of
             (Some e, w1) \<Rightarrow>
               Returned (log1, say (''Failed to close the log file. Error: '' @ e @ newline) w1)
           | (None, w1) \<Rightarrow>
               (let w2 = (case os_Rename env curFileName (curFileName @ ''.1'') w1 of
                            (Some e, w') \<Rightarrow> say (''Failed to rename the log file. Error: '' @ e @ newline) w'
                          | (None, w') \<Rightarrow> w')
                in
                case os_OpenFile env curFileName w2 of
                  (Inl e, w3) \<Rightarrow>
                    (let log2 = log1\<lparr>CurrentFile := None\<rparr>;
                         w4 = say (''Failed to open log file '' @ curFileName @ ''. Error: '' @ e @ newline) w3
                     in case unLock log2 of
                          None \<Rightarrow> Blocked (log2, w4)
                        | Some log3 \<Rightarrow> Returned (log3, w4))
                | (Inr f, w3) \<Rightarrow>
                    (let log2 = log1\<lparr>CurrentFile := Some f\<rparr>;
                         writers = [FileSink f]
                           @ (if Stdout log2 then [StdoutSink] else [])
                           @ (case Syslog log2 of None \<Rightarrow> [] | Some s \<Rightarrow> [s])
                     in case Logger log2 of
                          None \<Rightarrow> Panicked (log2, w3)
                        | Some l \<Rightarrow>
                            (let log3 = log2\<lparr>Logger := Some (l\<lparr>out := writers\<rparr>)\<rparr>
                             in case unLock log3 of
                                  None \<Rightarrow> Blocked (log3, w3)
                                | Some log4 \<Rightarrow> compress env curFileName log4 w3)))))"

text \<open>
  The body of \<open>if fi.Size() > log.MaxFileSize\<close>, up to \<open>log.lock()\<close>: the archives
  are counted, the oldest are removed, the others are shifted by one.
\<close>

definition retire :: "os \<Rightarrow> string \<Rightarrow> Logger \<Rightarrow> world \<Rightarrow> world" where
  "retire env name log w =
     (let (n, w1) = getOldestZipFileNumber log w;
          (compressedFiles, w2) =
             (if n \<ge> MaxCompressedFilesNumber log
                then removeLoop env name (wrap64 (MaxCompressedFilesNumber log - 1)) n n w1
              else (n, w1))
      in renameLoop env name compressedFiles w2)"

text \<open>The whole body: \<open>savFile\<close> is \<open>log.CurrentFile\<close>.\<close>

definition rotate :: "os \<Rightarrow> nat \<Rightarrow> Logger \<Rightarrow> world \<Rightarrow> (Logger \<times> world) outcome" where
  "rotate env cur log w =
     (let name = File_Name w cur
      in swap env name cur log (retire env name log w))"

definition checkFiles :: "os \<Rightarrow> Logger \<Rightarrow> world \<Rightarrow> (Logger \<times> world) outcome" where
  "checkFiles env log w =
     (case CurrentFile log of
        None \<Rightarrow> Returned (log, w)
      | Some cur \<Rightarrow>
          (case File_Stat env cur w of
             (Inl e, w1) \<Rightarrow>
               Returned (log, say (''Failed to get log file information. Error: '' @ e @ newline) w1)
           | (Inr fi_Size, w1) \<Rightarrow>
               if fi_Size > MaxFileSize log then rotate env cur log w1
               else Returned (log, w1)))"

section \<open>Initialization and shutdown\<close>

text \<open>The loop over the destinations, with its flags \<open>file\<close>, \<open>writeToStdout\<close>,
  \<open>writeToSyslog\<close> and \<open>glog\<close>.\<close>

fun scanDests :: "string list \<Rightarrow> bool \<times> bool \<times> bool \<times> bool \<Rightarrow> bool \<times> bool \<times> bool \<times> bool" where
  "scanDests [] flags = flags"
| "scanDests (dest # rest) (file, writeToStdout, writeToSyslog, g) =
     scanDests rest
       (if EqualFold dest ''file'' then (True, writeToStdout, writeToSyslog, g)
        else if EqualFold dest ''stdout'' then (file, True, writeToSyslog, g)
        else if EqualFold dest ''syslog'' then (file, writeToStdout, True, g)
        else if EqualFold dest ''glog'' then (file, writeToStdout, writeToSyslog, True)
        else (file, writeToStdout, writeToSyslog, g))"

definition os_MkdirAll :: "os \<Rightarrow> string \<Rightarrow> world \<Rightarrow> string option \<times> world" where
  "os_MkdirAll env path w =
     (let w1 = called (MkdirAll path) w in
      case refuses env (MkdirAll path) of
        Some e \<Rightarrow> (Some e, w1)
      | None \<Rightarrow> (None, w1\<lparr>dirs := List.insert path (dirs w)\<rparr>))"

text \<open>
  The branch \<open>if file\<close> of \<open>Init\<close>. When \<open>os.Stat\<close> fails for another reason than a
  missing path, \<open>info\<close> is nil and \<open>info.IsDir()\<close> panics.
\<close>

definition Init_file ::
  "os \<Rightarrow> Parameters \<Rightarrow> Logger \<Rightarrow> world \<Rightarrow> (string option \<times> sink list \<times> Logger \<times> world) outcome" where
  "Init_file env parameters log w =
     (let root = RootPath parameters; w1 = called (Stat root) w in
      case refuses env (Stat root) of
        Some e \<Rightarrow> Panicked (None, [], log, w1)
      | None \<Rightarrow>
          if root \<notin> set (dirs w) \<and> root \<in> set (files w) then
            Returned (Some (''Failed to open log file at '' @ root @ ''. '' @ root
                              @ '' isn'' @ [CHR 0x27] @ ''t a directory.'' @ newline), [], log, w1)
          else
            (case (if root \<in> set (dirs w) then (None, w1) else os_MkdirAll env root w1) of
               (Some e, w2) \<Rightarrow>
                 Returned (Some (''Failed to open log file at '' @ root @ ''. Error: '' @ e @ newline),
                           [], log, w2)
             | (None, w2) \<Rightarrow>
                 (case os_OpenFile env (root @ ''/'' @ FileName parameters @ ''.log'') w2 of
                    (Inl e, w3) \<Rightarrow>
                      Returned (Some (''Failed to open log file at '' @ root @ ''. Error: '' @ e @ newline),
                                [], log, w3)
                  | (Inr f, w3) \<Rightarrow> Returned (None, [FileSink f], log\<lparr>CurrentFile := Some f\<rparr>, w3))))"

text \<open>
  From \<open>if len(writers) > 0\<close> to the end of \<open>Init\<close>. \<open>time.NewTicker\<close> panics on a
  duration that is not positive; the duration is the interval times \<open>time.Second\<close>, in
  64 bits. The goroutine started here calls \<open>checkFiles\<close> at every tick of the ticker.
\<close>

definition Init_engine ::
  "Parameters \<Rightarrow> sink list \<Rightarrow> bool \<Rightarrow> Logger \<Rightarrow> world \<Rightarrow> (string option \<times> Logger \<times> world) outcome" where
  "Init_engine parameters writers g log w =
     (let Prefix1 = (if length writers > 0 \<and> Tracing log then ''* '' @ Prefix parameters
                     else Prefix parameters);
          glog_part = (\<lambda>log' w'.
            if g then
              (let (level, warning) = logLevel (Parameters.Level parameters) in
               Returned (None, log'\<lparr>Level := level, prefix := Prefix1, glog := True\<rparr>,
                         w'\<lparr>console := console w' @ warning\<rparr>))
            else Returned (None, log', w'))
      in
      if length writers > 0 then
        (let (level, warning) = logLevel (Parameters.Level parameters);
             log1 = log\<lparr>Logger := Some \<lparr>lprefix = Prefix1, out = writers\<rparr>,
                        useLogger := True,
                        Level := level,
                        MaxFileSize := wrap64 (Parameters.MaxFileSize parameters * 1024),
                        MaxCompressedFilesNumber := Parameters.MaxCompressedFilesNumber parameters,
                        lockChannel := Some [1]\<rparr>;
             w1 = w\<lparr>console := console w @ warning\<rparr>
         in if wrap64 (1000000000 * MaintenanceInterval parameters) \<le> 0 then Panicked (None, log1, w1)
            else glog_part (log1\<lparr>ticker := Some True\<rparr>) w1)
      else glog_part log w)"

definition Init :: "os \<Rightarrow> Parameters \<Rightarrow> Logger \<Rightarrow> world \<Rightarrow> (string option \<times> Logger \<times> world) outcome" where
  "Init env parameters log w =
     (let dests = Split (Destinations parameters) (CHR '','');
          (file, writeToStdout, writeToSyslog, g) =
             (if length dests = 0 then (True, False, False, False)
              else scanDests dests (False, False, False, False))
      in
      case (if file then Init_file env parameters log w else Returned (None, [], log, w)) of
        Panicked (e, ws, log1, w1) \<Rightarrow> Panicked (e, log1, w1)
      | Blocked (e, ws, log1, w1) \<Rightarrow> Blocked (e, log1, w1)
      | Returned (Some err, ws, log1, w1) \<Rightarrow> Returned (Some err, log1, w1)
      | Returned (None, writers1, log1, w1) \<Rightarrow>
          (let log2 = (if writeToStdout then log1\<lparr>Stdout := True\<rparr> else log1);
               writers2 = writers1 @ (if writeToStdout then [StdoutSink] else [])
           in
           case (if writeToSyslog
                   then (refuses env (SyslogNew (FileName parameters)),
                         called (SyslogNew (FileName parameters)) w1)
                 else (None, w1)) of
             (Some e, w2) \<Rightarrow>
               Returned (Some (''Failed to create syslog writer. Error: '' @ e @ newline), log2, w2)
           | (None, w2) \<Rightarrow>
               (let log3 = (if writeToSyslog then log2\<lparr>Syslog := Some SyslogSink\<rparr> else log2);
                    writers3 = writers2 @ (if writeToSyslog then [SyslogSink] else [])
                in
                if length writers3 = 0 \<and> \<not> g then
                  Returned (Some (''Invalid log/trace destinations list: '' @ Destinations parameters
                                    @ newline), log3, w2)
                else Init_engine parameters writers3 g log3 w2)))"

text \<open>
  \<open>Stop\<close>. Closing a nil \<open>*os.File\<close> only returns an error; stopping a nil ticker
  panics.
\<close>

definition Stop :: "os \<Rightarrow> Logger \<Rightarrow> world \<Rightarrow> (Logger \<times> world) outcome" where
  "Stop env log w =
     (let glog_part = (\<lambda>log' w'.
        Returned (log', if glog log' then w'\<lparr>bridge := bridge w' @ [Flush]\<rparr> else w'))
      in
      if useLogger log then
        (let w1 = (case CurrentFile log of None \<Rightarrow> w | Some f \<Rightarrow> snd (File_Close env f w)) in
         case ticker log of
           None \<Rightarrow> Panicked (log, w1)
         | Some running \<Rightarrow> glog_part (log\<lparr>ticker := Some False\<rparr>) w1)
      else glog_part log w)"

text \<open>The zero value of the struct, with which the packages \<open>log\<close> and \<open>trace\<close> start.\<close>

definition zero_Logger :: "bool \<Rightarrow> Logger" where
  "zero_Logger tracing =
     \<lparr>Tracing = tracing, Logger = None, Level = 0, MaxFileSize = 0, MaxCompressedFilesNumber = 0,
      CurrentFile = None, useLogger = False, glog = False, prefix = [], Stdout = False,
      Syslog = None, ticker = None, lockChannel = None\<rparr>"

section \<open>Dumping a struct\<close>

text \<open>
  What \<open>Dump\<close> can be given, as far as \<open>reflect\<close> tells it apart: the nil interface,
  a struct with its fields in order, and any other value, which carries the text the verb
  \<open>%v\<close> prints for it.
\<close>

datatype gvalue = VNil | VOther string | VStruct "(string \<times> gvalue) list"

definition exported :: "string \<Rightarrow> bool" where
  "exported name =
     (case name of [] \<Rightarrow> False | c # cs \<Rightarrow> 65 \<le> (of_char c :: nat) \<and> (of_char c :: nat) \<le> 90)"

text \<open>
  \<open>dumpHelper\<close> on the fields of a struct. \<open>value.Interface()\<close> panics on a field
  that is not exported (\<open>None\<close>).
\<close>

fun dumpHelper :: "nat \<Rightarrow> (string \<times> gvalue) list \<Rightarrow> string option" where
  "dumpHelper indent [] = Some []"
| "dumpHelper indent ((name, VStruct fs) # rest) =
     (if exported name then
        (case dumpHelper (indent + 2) fs of
           None \<Rightarrow> None
         | Some inner \<Rightarrow>
             (case dumpHelper indent rest of
                None \<Rightarrow> None
              | Some others \<Rightarrow> Some (replicate indent CHR '' '' @ name @ '':'' @ newline @ inner @ others)))
      else None)"
| "dumpHelper indent ((name, VOther text) # rest) =
     (case dumpHelper indent rest of
        None \<Rightarrow> None
      | Some others \<Rightarrow> Some (replicate indent CHR '' '' @ name @ ''  '' @ text @ newline @ others))"
| "dumpHelper indent ((name, VNil) # rest) =
     (case dumpHelper indent rest of
        None \<Rightarrow> None
      | Some others \<Rightarrow> Some (replicate indent CHR '' '' @ name @ ''  <nil>'' @ newline @ others))"

text \<open>
  \<open>Dump\<close>. \<open>reflect.TypeOf\<close> of the nil interface is nil, and calling \<open>Kind\<close> on it
  panics.
\<close>

definition Dump :: "Logger \<Rightarrow> world \<Rightarrow> string \<Rightarrow> gvalue \<Rightarrow> (Logger \<times> world) outcome" where
  "Dump log w label a =
     (case a of
        VNil \<Rightarrow> Panicked (log, w)
      | VOther text \<Rightarrow>
          printfAlways log w
            (''Dump was called with an object that wasn'' @ [CHR 0x27] @ ''t a struct'' @ newline) []
      | VStruct fs \<Rightarrow>
          (case dumpHelper 2 fs of
             None \<Rightarrow> Panicked (log, w)
           | Some body \<Rightarrow> printfAlways log w ''%s'' [label @ newline @ body]))"

section \<open>Fixtures\<close>

text \<open>
  An operating system that refuses nothing and reports every file as empty, and a machine
  on which nothing has happened yet.
\<close>

definition quiet :: os where
  "quiet = \<lparr>refuses = (\<lambda>op. None), size_of = (\<lambda>name. 0)\<rparr>"

definition nothing :: world where
  "nothing = \<lparr>files = [], dirs = [], handles = [], ops = [], console = [], primary = [],
               bridge = [], verbosity = 0\<rparr>"

text \<open>
  A configuration with the file as its only destination, and the engine and the machine in
  which \<open>Init\<close> leaves them for it (lemma \<open>Init_sample\<close> below).
\<close>

definition sample :: Parameters where
  "sample = \<lparr>RootPath = ''/var/log'', FileName = ''app'', MaxFileSize = 1,
              MaxCompressedFilesNumber = 2, Destinations = ''file'', Prefix = '''',
              Level = ''INFO'', MaintenanceInterval = 60\<rparr>"

definition started :: Logger where
  "started =
     \<lparr>Tracing = False, Logger = Some \<lparr>lprefix = '''', out = [FileSink 0]\<rparr>, Level = 5,
      MaxFileSize = 1024, MaxCompressedFilesNumber = 2, CurrentFile = Some 0, useLogger = True,
      glog = False, prefix = [], Stdout = False, Syslog = None, ticker = Some True,
      lockChannel = Some [1]\<rparr>"

definition booted :: world where
  "booted =
     \<lparr>files = [''/var/log/app.log''], dirs = [''/var/log''],
      handles = [\<lparr>Name = ''/var/log/app.log'', closed = False\<rparr>],
      ops = [Stat ''/var/log'', MkdirAll ''/var/log'', OpenFile ''/var/log/app.log''],
      console = [], primary = [], bridge = [], verbosity = 0\<rparr>"

text \<open>
  An operating system on which the active file has grown to 2000 bytes and closing it
  fails.
\<close>

definition failing_close :: os where
  "failing_close =
     \<lparr>refuses = (\<lambda>op. if op = Close 0 then Some ''input/output error'' else None),
      size_of = (\<lambda>name. 2000)\<rparr>"

text \<open>
  Operating systems on which the active file has grown to 2000 bytes and one call is
  refused: renaming the active file, or opening it afresh.
\<close>

definition failing_rename :: os where
  "failing_rename =
     \<lparr>refuses = (\<lambda>op. if op = Rename ''/var/log/app.log'' ''/var/log/app.log.1''
                        then Some ''permission denied'' else None),
      size_of = (\<lambda>name. 2000)\<rparr>"

definition failing_open :: os where
  "failing_open =
     \<lparr>refuses = (\<lambda>op. if op = OpenFile ''/var/log/app.log''
                        then Some ''too many open files'' else None),
      size_of = (\<lambda>name. 2000)\<rparr>"

text \<open>
  Operating systems that refuse nothing, on which the active file is one byte above the
  limit of \<open>sample\<close>, and exactly at it.
\<close>

definition grown :: os where
  "grown = \<lparr>refuses = (\<lambda>op. None), size_of = (\<lambda>name. 1025)\<rparr>"

definition at_limit :: os where
  "at_limit = \<lparr>refuses = (\<lambda>op. None), size_of = (\<lambda>name. 1024)\<rparr>"

section \<open>Properties\<close>

lemma Init_sample: "Init quiet sample (zero_Logger False) nothing = Returned (None, started, booted)"
  by code_simp

subsection \<open>What the loops of a tick leave alone\<close>

text \<open>
  Counting, removing and shifting the archives opens and closes no file object, and every
  call to the operating system is added at the end of the record. The count begins with a
  look at the archive of index 1.
\<close>

lemma oldestFrom_frame:
  "handles (snd (oldestFrom name i w)) = handles w \<and>
   files (snd (oldestFrom name i w)) = files w \<and>
   (\<exists>xs. ops (snd (oldestFrom name i w)) = ops w @ Stat (zipName name i) # xs)"
proof (induction name i w rule: oldestFrom.induct)
  case (1 name i w)
  show ?case
  proof (cases "zipName name i \<in> set (files w)")
    case True
    with 1 [OF True] show ?thesis
      by (subst (1 2 3) oldestFrom.simps) (auto simp: called_def)
  next
    case False
    then show ?thesis
      by (subst (1 2 3) oldestFrom.simps) (simp add: called_def)
  qed
qed

lemma os_Remove_frame:
  "handles (snd (os_Remove env name w)) = handles w \<and>
   ops (snd (os_Remove env name w)) = ops w @ [Remove name]"
  by (simp add: os_Remove_def called_def Let_def split: option.splits)

lemma os_Rename_frame:
  "handles (snd (os_Rename env a b w)) = handles w \<and>
   ops (snd (os_Rename env a b w)) = ops w @ [Rename a b]"
  by (simp add: os_Rename_def called_def Let_def split: option.splits)

lemma removeLoop_frame:
  "handles (snd (removeLoop env name bound i c w)) = handles w \<and>
   (\<exists>xs. ops (snd (removeLoop env name bound i c w)) = ops w @ xs)"
proof (induction env name bound i c w rule: removeLoop.induct)
  case (1 env name bound i c w)
  show ?case
  proof (cases "i > bound")
    case False
    then show ?thesis
      by (subst (1 2) removeLoop.simps) simp
  next
    case True
    obtain r w1 where r: "os_Remove env (zipName name i) w = (r, w1)"
      by (cases "os_Remove env (zipName name i) w")
    with os_Remove_frame [of env "zipName name i" w]
    have w1: "handles w1 = handles w" "ops w1 = ops w @ [Remove (zipName name i)]" by simp_all
    from r have r': "(r, w1) = os_Remove env (zipName name i) w" by simp
    show ?thesis
    proof (cases r)
      case None
      with 1(1) [OF True r' None] True r w1 show ?thesis
        by (subst (1 2) removeLoop.simps) auto
    next
      case (Some e)
      with 1(2) [OF True r' Some] True r w1 show ?thesis
        by (subst (1 2) removeLoop.simps) (auto simp: say_def)
    qed
  qed
qed

lemma renameLoop_frame:
  "handles (renameLoop env name i w) = handles w \<and>
   (\<exists>xs. ops (renameLoop env name i w) = ops w @ xs)"
proof (induction env name i w rule: renameLoop.induct)
  case (1 env name i w)
  show ?case
  proof (cases "i > 0")
    case False
    then show ?thesis
      by (subst (1 2) renameLoop.simps) simp
  next
    case True
    with 1 [OF True] os_Rename_frame [of env "zipName name i" "zipName name (i + 1)" w]
    show ?thesis
      by (subst (1 2) renameLoop.simps) auto
  qed
qed

lemma retire_frame:
  assumes "CurrentFile log = Some cur" "name = File_Name w cur"
  shows "handles (retire env name log w) = handles w \<and>
         (\<exists>xs. ops (retire env name log w) = ops w @ Stat (zipName name 1) # xs)"
proof -
  obtain n w1 where o: "oldestFrom name 1 w = (n, w1)" by (cases "oldestFrom name 1 w")
  with oldestFrom_frame [of name 1 w] obtain xs1 where
    w1: "handles w1 = handles w" "ops w1 = ops w @ Stat (zipName name 1) # xs1" by auto
  obtain c w2 where r: "(if n \<ge> MaxCompressedFilesNumber log
                then removeLoop env name (wrap64 (MaxCompressedFilesNumber log - 1)) n n w1
              else (n, w1)) = (c, w2)" by (metis surj_pair)
  have "handles w2 = handles w1 \<and> (\<exists>xs. ops w2 = ops w1 @ xs)"
  proof (cases "n \<ge> MaxCompressedFilesNumber log")
    case True
    with r removeLoop_frame [of env name "wrap64 (MaxCompressedFilesNumber log - 1)" n n w1]
    show ?thesis by auto
  next
    case False
    with r show ?thesis by simp
  qed
  then obtain xs2 where w2: "handles w2 = handles w1" "ops w2 = ops w1 @ xs2"
    by blast
  from renameLoop_frame [of env name c w2] obtain xs3 where
    w3: "handles (renameLoop env name c w2) = handles w2" "ops (renameLoop env name c w2) = ops w2 @ xs3" by blast
  have "retire env name log w = renameLoop env name c w2"
    using assms o r unfolding retire_def getOldestZipFileNumber_def Let_def
    by (simp split: if_splits)
  with w1 w2 w3 show ?thesis by simp
qed

subsection \<open>The primary path\<close>

lemma Sprintf_literal: "CHR ''%'' \<notin> set p \<Longrightarrow> Sprintf (p @ format) a = p @ Sprintf format a"
  by (induction p) auto

lemma logLevelPrefix_literal: "1 \<le> C \<Longrightarrow> C \<le> 7 \<Longrightarrow> CHR ''%'' \<notin> set (logLevelPrefix ! nat C)"
proof -
  assume a: "1 \<le> C" "C \<le> 7"
  then have "C = 1 \<or> C = 2 \<or> C = 3 \<or> C = 4 \<or> C = 5 \<or> C = 6 \<or> C = 7" by arith
  then show ?thesis
    by (elim disjE) (simp_all add: logLevelPrefix_def)
qed

lemma printf_glog_primary:
  "in_table C \<Longrightarrow> \<exists>w'. printf_glog log w C format a = Returned (log, w') \<and> primary w' = primary w"
  by (auto simp: printf_glog_def Let_def split: if_splits)

text \<open>
  Claim C1, as the code has it. Take a call at a level \<open>C\<close> from \<open>STATUS\<close> to
  \<open>TRACE\<close>, on an engine that either has no primary logger (\<open>useLogger\<close> is false:
  glog is its only destination) or has one and holds the token of its guard. The call
  returns and leaves the engine as it was. It writes to the primary logger exactly when
  the engine has one and \<open>C\<close> is at most the level of the engine; what it writes is one
  line, the prefix of the level followed by the expanded format, to all the writers of the
  logger. With glog as the only destination nothing is written there, whatever the level.
\<close>

theorem printf_primary:
  assumes C: "1 \<le> C" "C \<le> 7"
    and ready: "useLogger log \<Longrightarrow> lockChannel log = Some [1] \<and> Logger log = Some l"
  shows "\<exists>w'. printf log w C format a = Returned (log, w') \<and>
           primary w' = primary w @
             (if useLogger log \<and> C \<le> Level log
                then [(out l, logLevelPrefix ! nat C @ Sprintf format a)] else [])"
proof -
  from C have t: "in_table C" by (simp add: in_table_def)
  show ?thesis
  proof (cases "useLogger log \<and> C \<le> Level log")
    case False
    then have "printf log w C format a = printf_glog log w C format a"
      by (auto simp: printf_def)
    with printf_glog_primary [OF t, of log w format a] False show ?thesis by auto
  next
    case True
    with ready have r: "lockChannel log = Some [1]" "Logger log = Some l" by simp_all
    let ?w1 = "Logger_Printf l (logLevelPrefix ! nat C @ format) a w"
    have restore: "(log\<lparr>lockChannel := Some []\<rparr>)\<lparr>lockChannel := Some [1]\<rparr> = log"
      using r by simp
    from True r t have "printf log w C format a = printf_glog log ?w1 C format a"
      by (simp add: printf_def lock_def unLock_def restore)
    moreover have "primary ?w1 = primary w @ [(out l, logLevelPrefix ! nat C @ Sprintf format a)]"
      using Sprintf_literal [OF logLevelPrefix_literal [OF C]] by (simp add: Logger_Printf_def)
    ultimately show ?thesis
      using printf_glog_primary [OF t, of log ?w1 format a] True by auto
  qed
qed

theorem printf_primary_witness:
  "(\<exists>w'. printf started booted INFO ''up %d'' [''7''] = Returned (started, w') \<and>
       primary w' = [([FileSink 0], ''INFO: up 7'')])
   \<and> (\<exists>w'. printf started booted DEBUG ''up %d'' [''7''] = Returned (started, w') \<and>
       primary w' = [])"
  using printf_primary [of INFO started "\<lparr>lprefix = '''', out = [FileSink 0]\<rparr>" booted "''up %d''" "[''7'']"]
    printf_primary [of DEBUG started "\<lparr>lprefix = '''', out = [FileSink 0]\<rparr>" booted "''up %d''" "[''7'']"]
  by (simp add: started_def booted_def level_defs logLevelPrefix_def)

text \<open>
  With \<open>glog\<close> as the list of destinations and \<open>TRACE\<close> as the level, \<open>Init\<close>
  succeeds and the level of the engine is \<open>TRACE\<close>; a call at \<open>INFO\<close>, which is below,
  writes nothing to the primary path.
\<close>

theorem printf_glog_only:
  "Init quiet (sample\<lparr>Destinations := ''glog'', Parameters.Level := ''TRACE''\<rparr>) (zero_Logger False) nothing
     = Returned (None, (zero_Logger False)\<lparr>Level := TRACE, glog := True\<rparr>, nothing)
   \<and> INFO \<le> Level ((zero_Logger False)\<lparr>Level := TRACE, glog := True\<rparr>)
   \<and> primary (snd (state (printf ((zero_Logger False)\<lparr>Level := TRACE, glog := True\<rparr>) nothing INFO ''hello'' [])))
       = []"
  by code_simp

subsection \<open>The token of the guard\<close>

text \<open>
  Claim C9, on the code. Take a tick that finds the active file above the limit, with the
  token in the channel, and let closing the active file fail. The tick returns with the
  token taken and not given back, and from then on a call that writes to the primary
  logger blocks in \<open>lock\<close>.
\<close>

theorem checkFiles_close_failure:
  assumes cur: "CurrentFile log = Some cur" "cur < length (handles w)" "\<not> closed (handles w ! cur)"
    and stat: "refuses env (FStat cur) = None"
    and big: "size_of env (Name (handles w ! cur)) > MaxFileSize log"
    and token: "lockChannel log = Some [1]"
    and close: "refuses env (Close cur) = Some e"
    and call: "useLogger log" "C \<le> Level log"
  shows "\<exists>w'. checkFiles env log w = Returned (log\<lparr>lockChannel := Some []\<rparr>, w')
           \<and> printf (log\<lparr>lockChannel := Some []\<rparr>) w'' C format a
               = Blocked (log\<lparr>lockChannel := Some []\<rparr>, w'')"
proof -
  let ?w1 = "called (FStat cur) w"
  let ?name = "File_Name ?w1 cur"
  let ?w2 = "retire env ?name log ?w1"
  from cur stat big have c: "checkFiles env log w = swap env ?name cur log ?w2"
    by (simp add: checkFiles_def File_Stat_def Let_def rotate_def)
  from retire_frame [OF cur(1) refl, of env ?w1] have h: "handles ?w2 = handles w"
    by (simp add: called_def)
  from cur close h have "\<exists>w3. File_Close env cur ?w2 = (Some e, w3)"
    by (simp add: File_Close_def Let_def)
  then obtain w3 where "File_Close env cur ?w2 = (Some e, w3)" ..
  with token have "swap env ?name cur log ?w2 =
      Returned (log\<lparr>lockChannel := Some []\<rparr>, say (''Failed to close the log file. Error: '' @ e @ newline) w3)"
    by (simp add: swap_def lock_def)
  with c have "\<exists>w'. checkFiles env log w = Returned (log\<lparr>lockChannel := Some []\<rparr>, w')" by simp
  moreover from call have "printf (log\<lparr>lockChannel := Some []\<rparr>) w'' C format a
               = Blocked (log\<lparr>lockChannel := Some []\<rparr>, w'')"
    by (simp add: printf_def lock_def)
  ultimately show ?thesis by simp
qed

theorem checkFiles_close_failure_witness:
  "(\<exists>w'. checkFiles failing_close started booted = Returned (started\<lparr>lockChannel := Some []\<rparr>, w'))
   \<and> printf (started\<lparr>lockChannel := Some []\<rparr>) booted INFO ''still here'' []
       = Blocked (started\<lparr>lockChannel := Some []\<rparr>, booted)"
  using checkFiles_close_failure [of started 0 booted failing_close "''input/output error''" INFO booted "''still here''" "[]"]
  by (simp add: started_def booted_def failing_close_def level_defs)


subsection \<open>What \<open>Init\<close> leaves behind\<close>

lemma Init_file_engine:
  "Init_file env p log w = Returned (None, ws, log1, w1) \<Longrightarrow>
     \<exists>f. ws = [FileSink f] \<and> log1 = log\<lparr>CurrentFile := Some f\<rparr>"
  by (auto simp: Init_file_def Let_def split: option.splits if_splits prod.splits sum.splits)

lemma Init_engine_ready:
  assumes "Init_engine p ws g log w = Returned (None, log', w')"
  shows "if ws = [] then useLogger log' = useLogger log
         else useLogger log' \<and> lockChannel log' = Some [1] \<and> (\<exists>l. Logger log' = Some l \<and> out l = ws)
              \<and> MaxFileSize log' = wrap64 (Parameters.MaxFileSize p * 1024)
              \<and> MaxCompressedFilesNumber log' = Parameters.MaxCompressedFilesNumber p
              \<and> Level log' = fst (logLevel (Parameters.Level p))
              \<and> CurrentFile log' = CurrentFile log"
  using assms
  by (auto simp: Init_engine_def Let_def split: prod.splits if_splits)

lemma Init_ready:
  assumes init: "Init env p log w = Returned (None, log', w')"
    and fresh: "\<not> useLogger log"
    and active: "useLogger log'"
  shows "lockChannel log' = Some [1] \<and> (\<exists>l. Logger log' = Some l)
         \<and> MaxFileSize log' = wrap64 (Parameters.MaxFileSize p * 1024)
         \<and> MaxCompressedFilesNumber log' = Parameters.MaxCompressedFilesNumber p
         \<and> Level log' = fst (logLevel (Parameters.Level p))"
proof -
  obtain fl so sy g where f: "(if length (Split (Destinations p) (CHR '','')) = 0 then (True, False, False, False)
              else scanDests (Split (Destinations p) (CHR '','')) (False, False, False, False)) = (fl, so, sy, g)"
    by (metis prod_cases4)
  obtain r where r: "(if fl then Init_file env p log w else Returned (None, [], log, w)) = r" by simp
  from init f r obtain ws log1 w1 where r1: "r = Returned (None, ws, log1, w1)"
    unfolding Init_def Let_def
    by (auto split: outcome.splits option.splits prod.splits)
  have u1: "useLogger log1 = useLogger log"
  proof (cases fl)
    case True
    with r r1 Init_file_engine [of env p log w ws log1 w1] show ?thesis by auto
  next
    case False
    with r r1 show ?thesis by simp
  qed
  from init f r r1 obtain ws3 log3 w2 where
    e: "Init_engine p ws3 g log3 w2 = Returned (None, log', w')" and u3: "useLogger log3 = useLogger log1"
    unfolding Init_def Let_def
    by (auto split: option.splits prod.splits if_splits)
  from Init_engine_ready [OF e] u3 u1 fresh active show ?thesis
    by (auto split: if_splits)
qed

subsection \<open>The guarded step and the limit\<close>

lemma token_back: "lockChannel x = c \<Longrightarrow> x\<lparr>lockChannel := c\<rparr> = x"
  by simp

lemma compress_returns:
  "\<exists>w' xs. compress env name log w = Returned (log, w') \<and> ops w' = ops w @ Open (name @ ''.1'') # xs"
  by (auto simp: compress_def os_Open_def os_Create_def gzip_Copy_def gzip_Close_def File_Close_def
      os_Remove_def called_def say_def Let_def split: option.splits prod.splits sum.splits if_splits)

text \<open>
  Claim C5, as the code has it. Take the guarded step of a tick, with the token in the
  channel, a primary logger and the active file open. The step always returns. When
  closing the active file fails, nothing more is called: the step returns at once (with
  the token still taken). When the close succeeds and opening the file afresh fails, the
  step ends after the rename and the failed open, with no active file and the token given
  back. In every other case, whatever the rename returned, the step goes on: the file is
  opened afresh, the logger gets its new writers, the token is given back and the
  compression is begun by opening \<open><name>.1\<close>. So a failed rename ends nothing.
\<close>

theorem swap_failures:
  assumes token: "lockChannel log = Some [1]"
    and logger: "Logger log = Some l"
    and active: "savFile < length (handles w)" "\<not> closed (handles w ! savFile)"
  shows
    "case refuses env (Close savFile) of
       Some e \<Rightarrow>
         \<exists>w'. swap env name savFile log w = Returned (log\<lparr>lockChannel := Some []\<rparr>, w') \<and>
              ops w' = ops w @ [Close savFile]
     | None \<Rightarrow>
         (case refuses env (OpenFile name) of
            Some e \<Rightarrow>
              \<exists>w'. swap env name savFile log w = Returned (log\<lparr>CurrentFile := None\<rparr>, w') \<and>
                   ops w' = ops w @ [Close savFile, Rename name (name @ ''.1''), OpenFile name]
          | None \<Rightarrow>
              \<exists>w' xs. swap env name savFile log w =
                       Returned (log\<lparr>CurrentFile := Some (length (handles w)),
                                     Logger := Some (l\<lparr>out := [FileSink (length (handles w))]
                                        @ (if Stdout log then [StdoutSink] else [])
                                        @ (case Syslog log of None \<Rightarrow> [] | Some s \<Rightarrow> [s])\<rparr>)\<rparr>, w') \<and>
                   ops w' = ops w @ [Close savFile, Rename name (name @ ''.1''), OpenFile name,
                                     Open (name @ ''.1'')] @ xs)"
proof (cases "refuses env (Close savFile)")
  case (Some e)
  with token active show ?thesis
    by (simp add: swap_def lock_def File_Close_def Let_def called_def say_def)
next
  case None
  note close = this
  obtain r w1 where c: "File_Close env savFile w = (r, w1)" by (cases "File_Close env savFile w")
  with close active have r: "r = None" and w1: "ops w1 = ops w @ [Close savFile]" "length (handles w1) = length (handles w)"
    by (auto simp: File_Close_def Let_def called_def)
  define w2 where "w2 = (case os_Rename env name (name @ ''.1'') w1 of
                            (Some e, w') \<Rightarrow> say (''Failed to rename the log file. Error: '' @ e @ newline) w'
                          | (None, w') \<Rightarrow> w')"
  have w2: "ops w2 = ops w @ [Close savFile, Rename name (name @ ''.1'')]" "length (handles w2) = length (handles w)"
    using w1 by (auto simp: w2_def os_Rename_def Let_def called_def say_def split: option.splits)
  have restore: "\<And>x. (x\<lparr>lockChannel := Some []\<rparr>)\<lparr>lockChannel := Some [1]\<rparr> = x\<lparr>lockChannel := Some [1]\<rparr>"
    by simp
  have same: "log\<lparr>lockChannel := Some [1]\<rparr> = log" using token by simp
  show ?thesis
  proof (cases "refuses env (OpenFile name)")
    case (Some e)
    with token c r w2 have "swap env name savFile log w =
        Returned ((log\<lparr>lockChannel := Some [1]\<rparr>)\<lparr>CurrentFile := None\<rparr>,
          say (''Failed to open log file '' @ name @ ''. Error: '' @ e @ newline) (called (OpenFile name) w2))"
      by (simp add: swap_def lock_def unLock_def w2_def [symmetric] os_OpenFile_def Let_def)
    with close Some w2 same show ?thesis
      by (simp add: say_def called_def)
  next
    case None
    let ?f = "length (handles w)"
    let ?log4 = "log\<lparr>CurrentFile := Some ?f,
                      Logger := Some (l\<lparr>out := [FileSink ?f]
                                        @ (if Stdout log then [StdoutSink] else [])
                                        @ (case Syslog log of None \<Rightarrow> [] | Some s \<Rightarrow> [s])\<rparr>)\<rparr>"
    let ?w3 = "(called (OpenFile name) w2)\<lparr>files := List.insert name (files w2),
              handles := handles w2 @ [\<lparr>Name = name, closed = False\<rparr>]\<rparr>"
    from None token logger c r w2 have "swap env name savFile log w = compress env name ?log4 ?w3"
      by (simp add: swap_def lock_def unLock_def w2_def [symmetric] os_OpenFile_def Let_def token_back)
    with compress_returns [of env name ?log4 ?w3] close None w2 show ?thesis
      by (auto simp: called_def)
  qed
qed


theorem swap_failures_witness:
  "(\<exists>w'. swap failing_close ''/var/log/app.log'' 0 started booted
            = Returned (started\<lparr>lockChannel := Some []\<rparr>, w') \<and>
         ops w' = ops booted @ [Close 0])
   \<and> (\<exists>w'. swap failing_open ''/var/log/app.log'' 0 started booted
            = Returned (started\<lparr>CurrentFile := None\<rparr>, w') \<and>
         ops w' = ops booted @ [Close 0, Rename ''/var/log/app.log'' ''/var/log/app.log.1'',
                                OpenFile ''/var/log/app.log''])
   \<and> (\<exists>w' xs. swap failing_rename ''/var/log/app.log'' 0 started booted
            = Returned (started\<lparr>CurrentFile := Some 1,
                                 Logger := Some \<lparr>lprefix = [], out = [FileSink 1]\<rparr>\<rparr>, w') \<and>
         ops w' = ops booted @ [Close 0, Rename ''/var/log/app.log'' ''/var/log/app.log.1'',
                                OpenFile ''/var/log/app.log'', Open ''/var/log/app.log.1''] @ xs)"
  using swap_failures [of started "\<lparr>lprefix = [], out = [FileSink 0]\<rparr>" 0 booted failing_close "''/var/log/app.log''"]
    swap_failures [of started "\<lparr>lprefix = [], out = [FileSink 0]\<rparr>" 0 booted failing_open "''/var/log/app.log''"]
    swap_failures [of started "\<lparr>lprefix = [], out = [FileSink 0]\<rparr>" 0 booted failing_rename "''/var/log/app.log''"]
  by (simp add: started_def booted_def failing_close_def failing_open_def failing_rename_def)

text \<open>
  A tick on which only the rename of the active file is refused: after the failed rename
  the file is opened afresh, the logger writes to the new file object, and the saved file
  is looked for.
\<close>

theorem checkFiles_rename_failure:
  "checkFiles failing_rename started booted =
     Returned
       (started\<lparr>CurrentFile := Some 1, Logger := Some \<lparr>lprefix = [], out = [FileSink 1]\<rparr>\<rparr>,
        booted\<lparr>handles := [\<lparr>Name = ''/var/log/app.log'', closed = True\<rparr>,
                             \<lparr>Name = ''/var/log/app.log'', closed = False\<rparr>],
               ops := ops booted @
                 [FStat 0, Stat ''/var/log/app.log.1.gz'', Close 0,
                  Rename ''/var/log/app.log'' ''/var/log/app.log.1'',
                  OpenFile ''/var/log/app.log'', Open ''/var/log/app.log.1''],
               console := [''Failed to rename the log file. Error: permission denied'' @ newline,
                           ''Failed to open log file /var/log/app.log. Error: no such file or directory''
                             @ newline]\<rparr>)"
  by code_simp

lemma itoa_1: "itoa 1 = ''1''"
  by code_simp

lemma zipName_1: "zipName name 1 = name @ ''.1.gz''"
  by (simp add: zipName_def itoa_1)

lemma swap_ops: "\<exists>ys. ops (snd (state (swap env name f log w))) = ops w @ ys"
proof (cases "lock log")
  case None
  then show ?thesis by (simp add: swap_def)
next
  case (Some log1)
  obtain r w1 where c: "File_Close env f w = (r, w1)" by (cases "File_Close env f w")
  then have w1: "ops w1 = ops w @ [Close f]"
    by (auto simp: File_Close_def Let_def called_def split: if_splits)
  show ?thesis
  proof (cases r)
    case (Some e)
    with \<open>lock log = Some log1\<close> c w1 show ?thesis
      by (simp add: swap_def say_def)
  next
    case None
    define w2 where "w2 = (case os_Rename env name (name @ ''.1'') w1 of
                            (Some e, w') \<Rightarrow> say (''Failed to rename the log file. Error: '' @ e @ newline) w'
                          | (None, w') \<Rightarrow> w')"
    have w2: "ops w2 = ops w @ [Close f, Rename name (name @ ''.1'')]"
      using w1 by (auto simp: w2_def os_Rename_def Let_def called_def say_def split: option.splits)
    obtain q w3 where o: "os_OpenFile env name w2 = (q, w3)" by (cases "os_OpenFile env name w2")
    then have w3: "ops w3 = ops w2 @ [OpenFile name]"
      by (auto simp: os_OpenFile_def Let_def called_def split: option.splits)
    show ?thesis
    proof (cases q)
      case (Inl e)
      with \<open>lock log = Some log1\<close> c None o w2 w3 show ?thesis
        by (simp add: swap_def w2_def [symmetric] Let_def say_def split: option.splits)
    next
      case (Inr g)
      have "\<And>l. \<exists>ys. ops (snd (state (compress env name l w3))) = ops w @ ys"
      proof -
        fix l
        from compress_returns [of env name l w3] w2 w3 show "\<exists>ys. ops (snd (state (compress env name l w3))) = ops w @ ys"
          by auto
      qed
      with \<open>lock log = Some log1\<close> c None o Inr w2 w3 show ?thesis
        by (simp add: swap_def w2_def [symmetric] Let_def split: option.splits)
    qed
  qed
qed

text \<open>
  Claim C2. Take an engine that \<open>Init\<close> has started with a primary logger, for a limit
  whose count of bytes (the kilobytes times 1024) fits in 64 bits, and a tick that finds
  an open active file whose size the operating system reports. When the size is above the
  limit in bytes, the tick goes on to the rotation, which begins by looking for the
  archive of index 1. When it is not, the tick returns with the engine as it was, and the
  machine as it was but for the record of the one call that asked for the size.
\<close>

theorem checkFiles_threshold:
  assumes init: "Init env0 p (zero_Logger t) w0 = Returned (None, log0, w1)" "useLogger log0"
    and range: "- (2 ^ 63) \<le> Parameters.MaxFileSize p * 1024" "Parameters.MaxFileSize p * 1024 < 2 ^ 63"
    and same: "MaxFileSize log = MaxFileSize log0"
    and cur: "CurrentFile log = Some cur" "cur < length (handles w)" "\<not> closed (handles w ! cur)"
    and stat: "refuses env (FStat cur) = None"
  shows "if size_of env (Name (handles w ! cur)) > Parameters.MaxFileSize p * 1024
         then (\<exists>xs. ops (snd (state (checkFiles env log w))) =
                       ops w @ FStat cur # Stat (zipName (Name (handles w ! cur)) 1) # xs)
         else checkFiles env log w = Returned (log, w\<lparr>ops := ops w @ [FStat cur]\<rparr>)"
proof -
  have "\<not> useLogger (zero_Logger t)" by (simp add: zero_Logger_def)
  from Init_ready [OF init(1) this init(2)] same
  have "MaxFileSize log = wrap64 (Parameters.MaxFileSize p * 1024)" by simp
  also from range have "\<dots> = Parameters.MaxFileSize p * 1024" by (simp add: wrap64_def)
  finally have limit: "MaxFileSize log = Parameters.MaxFileSize p * 1024" .
  show ?thesis
  proof (cases "size_of env (Name (handles w ! cur)) > Parameters.MaxFileSize p * 1024")
    case False
    with cur stat limit show ?thesis
      by (simp add: checkFiles_def File_Stat_def Let_def called_def)
  next
    case True
    let ?w1 = "called (FStat cur) w"
    let ?name = "File_Name ?w1 cur"
    let ?w2 = "retire env ?name log ?w1"
    from True cur stat limit have c: "checkFiles env log w = swap env ?name cur log ?w2"
      by (simp add: checkFiles_def File_Stat_def Let_def rotate_def)
    from retire_frame [OF cur(1) refl, of env ?w1] obtain xs where
      r: "ops ?w2 = ops w @ FStat cur # Stat (zipName (Name (handles w ! cur)) 1) # xs"
      by (auto simp: called_def File_Name_def)
    from swap_ops [of env ?name cur log ?w2] obtain ys where
      "ops (snd (state (swap env ?name cur log ?w2))) = ops ?w2 @ ys" ..
    with c r True show ?thesis by simp
  qed
qed


theorem checkFiles_threshold_witness:
  "(\<exists>xs. ops (snd (state (checkFiles grown started booted))) =
            ops booted @ FStat 0 # Stat ''/var/log/app.log.1.gz'' # xs)
   \<and> checkFiles at_limit started booted = Returned (started, booted\<lparr>ops := ops booted @ [FStat 0]\<rparr>)"
  using checkFiles_threshold [OF Init_sample, of started 0 booted grown]
    checkFiles_threshold [OF Init_sample, of started 0 booted at_limit]
  by (simp add: started_def booted_def sample_def grown_def at_limit_def zipName_1)

subsection \<open>Level names\<close>

lemma toUpperChar_idem: "toUpperChar (toUpperChar c) = toUpperChar c"
proof -
  have "(of_char (char_of (of_char c - 32 :: nat) :: char) :: nat) = (of_char c - 32) mod 256"
    by (simp only: of_char_of)
  then show ?thesis
    by (auto simp: toUpperChar_def Let_def)
qed

lemma ToUpper_idem: "ToUpper (ToUpper s) = ToUpper s"
  by (simp add: ToUpper_def toUpperChar_idem)

text \<open>
  Claim C6, as the code has it. \<open>logLevel\<close> reads a name through \<open>strings.ToUpper\<close>
  only, so the case of its letters does not matter. Nine upper-case names have an ordinal
  of their own: the eight level names and \<open>XTRACE\<close>, which stands for \<open>TRACE\<close>. Every
  other name gives \<open>INFO\<close> and one line of warning on the console. The function is total:
  no name makes it fail.
\<close>

theorem logLevel_names:
  "logLevel s =
     (if ToUpper s = ''NONE'' then (NONE, [])
      else if ToUpper s = ''STATUS'' then (STATUS, [])
      else if ToUpper s = ''FATAL'' then (FATAL, [])
      else if ToUpper s = ''ERROR'' then (ERROR, [])
      else if ToUpper s = ''WARNING'' then (WARNING, [])
      else if ToUpper s = ''INFO'' then (INFO, [])
      else if ToUpper s = ''DEBUG'' then (DEBUG, [])
      else if ToUpper s = ''TRACE'' then (TRACE, [])
      else if ToUpper s = ''XTRACE'' then (TRACE, [])
      else (INFO, [''Invalid log level '' @ s @ '' specified. Using INFO instead'' @ newline]))
   \<and> fst (logLevel (ToUpper s)) = fst (logLevel s)"
  by (simp add: logLevel_def logLevels_def newline_def ToUpper_idem)

theorem logLevel_names_witness:
  "logLevel ''debug'' = (DEBUG, []) \<and> logLevel ''Xtrace'' = (TRACE, [])
   \<and> logLevel ''verbose'' =
         (INFO, [''Invalid log level verbose specified. Using INFO instead'' @ newline])"
proof -
  have u: "ToUpper ''debug'' = ''DEBUG''" "ToUpper ''Xtrace'' = ''XTRACE''"
    "ToUpper ''verbose'' = ''VERBOSE''"
    by code_simp+
  show ?thesis
    using logLevel_names [of "''debug''"] logLevel_names [of "''Xtrace''"]
      logLevel_names [of "''verbose''"]
    unfolding u by simp
qed

text \<open>
  The name \<open>XTRACE\<close> is not one of the eight level names, and it is neither refused nor
  turned into \<open>INFO\<close>: it gives \<open>TRACE\<close>, without a warning.
\<close>

theorem logLevel_XTRACE:
  "logLevel ''XTRACE'' = (TRACE, []) \<and> TRACE \<noteq> INFO
   \<and> ''XTRACE'' \<notin> set [''NONE'', ''STATUS'', ''FATAL'', ''ERROR'', ''WARNING'', ''INFO'', ''DEBUG'', ''TRACE'']"
  by (simp add: logLevel_def logLevels_def level_defs ToUpper_def toUpperChar_def)

subsection \<open>The query\<close>

text \<open>
  Claim C7. For a level \<open>C\<close> from 0 to 7, \<open>IsLogging\<close> answers, and its answer is true
  exactly when the level of the engine is at least \<open>C\<close>, or glog is a destination and its
  verbosity is at least the entry of the table for \<open>C\<close>: 0 up to \<open>WARNING\<close>, 3 for
  \<open>INFO\<close>, 5 for \<open>DEBUG\<close>, 6 for \<open>TRACE\<close>. The query returns its answer only: the
  engine and the machine are not among its results.
\<close>

theorem IsLogging_iff:
  "0 \<le> C \<Longrightarrow> C \<le> 7 \<Longrightarrow>
   IsLogging log w C =
     Some (Level log \<ge> C \<or>
           (glog log \<and>
            verbosity w \<ge> (if C \<le> WARNING then 0 else if C = INFO then 3
                            else if C = DEBUG then 5 else 6)))"
proof -
  assume a: "0 \<le> C" "C \<le> 7"
  then have "C = 0 \<or> C = 1 \<or> C = 2 \<or> C = 3 \<or> C = 4 \<or> C = 5 \<or> C = 6 \<or> C = 7" by arith
  then show ?thesis
    by (elim disjE) (simp_all add: IsLogging_def in_table_def glog_V_def logLevel2glog_def level_defs)
qed

theorem IsLogging_iff_witness:
  "IsLogging ((zero_Logger False)\<lparr>Level := WARNING, glog := True\<rparr>) (nothing\<lparr>verbosity := 3\<rparr>) INFO
     = Some True
   \<and> IsLogging ((zero_Logger False)\<lparr>Level := WARNING, glog := True\<rparr>) (nothing\<lparr>verbosity := 3\<rparr>) DEBUG
     = Some False
   \<and> IsLogging ((zero_Logger False)\<lparr>Level := DEBUG\<rparr>) nothing DEBUG = Some True"
  using IsLogging_iff [of INFO "(zero_Logger False)\<lparr>Level := WARNING, glog := True\<rparr>" "nothing\<lparr>verbosity := 3\<rparr>"]
    IsLogging_iff [of DEBUG "(zero_Logger False)\<lparr>Level := WARNING, glog := True\<rparr>" "nothing\<lparr>verbosity := 3\<rparr>"]
    IsLogging_iff [of DEBUG "(zero_Logger False)\<lparr>Level := DEBUG\<rparr>" nothing]
  by (simp add: zero_Logger_def nothing_def level_defs)

subsection \<open>The empty list of destinations\<close>

text \<open>
  Claim C4, on the code. With the empty string as the list of destinations, \<open>Init\<close>
  touches neither the engine nor the machine and returns the error for a list without a
  valid destination: \<open>strings.Split\<close> gives one empty name, not an empty slice, so the
  branch that would choose the file is never taken and no file is opened.
\<close>

theorem Init_empty_destinations:
  "Init env (parameters\<lparr>Destinations := ''''\<rparr>) log w =
     Returned (Some (''Invalid log/trace destinations list: '' @ newline), log, w)"
  by (simp add: Init_def EqualFold_def ToUpper_def)

subsection \<open>Dumping what is not a struct\<close>

text \<open>
  Claim C8, on the code. \<open>Dump\<close> of the nil interface panics before anything is
  written: neither the engine nor the machine has changed when the process goes down.
\<close>

theorem Dump_nil_panics:
  "Dump log w label VNil = Panicked (log, w)"
  by (simp add: Dump_def)

end
